theory Spec2Isabelle
  imports Main "HOL-Library.Sublist"
begin

section \<open>JavaScript string primitives used by the extension\<close>

text \<open>
  A JavaScript string is a sequence of UTF-16 code units. The file contents, names and
  namespaces are modelled as a \<^typ>\<open>string\<close>, the code units below 256. The view path of
  \<open>createViewModel\<close> is modelled as a list of code units as numbers (see below), because
  the extension applies offsets of the lower-cased path to the path itself and lower-casing
  can change the length of a string. The search and slicing primitives work on lists of
  either kind. Indices are \<^typ>\<open>int\<close>, because \<open>indexOf\<close> answers \<open>-1\<close> for a pattern
  that does not occur and the extension does arithmetic on that answer.
\<close>

text \<open>
  \<open>searchFrom pat s\<close> is the offset of the leftmost suffix of \<open>s\<close> that starts with
  \<open>pat\<close>, the scan every substring search of the language performs.
\<close>

fun searchFrom :: "'a list \<Rightarrow> 'a list \<Rightarrow> nat option" where
  "searchFrom pat [] = (if pat = [] then Some 0 else None)"
| "searchFrom pat (c # cs) =
     (if prefix pat (c # cs) then Some 0
      else case searchFrom pat cs of None \<Rightarrow> None | Some i \<Rightarrow> Some (Suc i))"

text \<open>The position argument of \<open>indexOf\<close> and \<open>substring\<close> is clamped to \<open>[0, length]\<close>.\<close>

definition clampIndex :: "'a list \<Rightarrow> int \<Rightarrow> nat" where
  "clampIndex s i = (if i < 0 then 0 else min (nat i) (length s))"

text \<open>\<open>s.indexOf(pat, position)\<close>.\<close>

definition indexOf :: "'a list \<Rightarrow> 'a list \<Rightarrow> int \<Rightarrow> int" where
  "indexOf s pat position =
     (let k = clampIndex s position
      in case searchFrom pat (drop k s) of None \<Rightarrow> - 1 | Some i \<Rightarrow> int (k + i))"

text \<open>\<open>s.substring(a, b)\<close>: both ends are clamped, and swapped when \<open>a > b\<close>.\<close>

definition substring :: "'a list \<Rightarrow> int \<Rightarrow> int \<Rightarrow> 'a list" where
  "substring s a b =
     (let a' = clampIndex s a; b' = clampIndex s b;
          lo = min a' b'; hi = max a' b'
      in take (hi - lo) (drop lo s))"

text \<open>\<open>s.substring(a)\<close>: the end defaults to the length of the string.\<close>

definition substringFrom :: "'a list \<Rightarrow> int \<Rightarrow> 'a list" where
  "substringFrom s a = substring s a (int (length s))"

text \<open>\<open>s.includes(pat)\<close>.\<close>

definition includes_js :: "'a list \<Rightarrow> 'a list \<Rightarrow> bool" where
  "includes_js s pat = (searchFrom pat s \<noteq> None)"

text \<open>\<open>s.endsWith(suffix)\<close>.\<close>

definition endsWith :: "string \<Rightarrow> string \<Rightarrow> bool" where
  "endsWith s suf = (length suf \<le> length s \<and> drop (length s - length suf) s = suf)"

text \<open>\<open>s.lastIndexOf(pat)\<close>: the greatest offset at which \<open>pat\<close> occurs, or \<open>-1\<close>.\<close>

definition lastIndexOf :: "string \<Rightarrow> string \<Rightarrow> int" where
  "lastIndexOf s pat =
     (case filter (\<lambda>i. prefix pat (drop i s)) (rev [0..<Suc (length s)]) of
        [] \<Rightarrow> - 1
      | i # _ \<Rightarrow> int i)"

text \<open>
  \<open>s.replace(pat, rep)\<close> with a string pattern replaces the first occurrence only.
  The extension calls it with the empty replacement.
\<close>

definition replace_js :: "string \<Rightarrow> string \<Rightarrow> string \<Rightarrow> string" where
  "replace_js s pat rep =
     (case searchFrom pat s of
        None \<Rightarrow> s
      | Some i \<Rightarrow> take i s @ rep @ drop (i + length pat) s)"

text \<open>
  \<open>s.split(sep)\<close> for a separator of one code unit (\<open>path.sep\<close> is one): the empty
  string splits into one empty piece.
\<close>

fun split :: "char \<Rightarrow> string \<Rightarrow> string list" where
  "split sep [] = [[]]"
| "split sep (c # cs) =
     (if c = sep then [] # split sep cs
      else case split sep cs of
             [] \<Rightarrow> [[c]]
           | piece # pieces \<Rightarrow> (c # piece) # pieces)"

text \<open>\<open>parts.join(sep)\<close>.\<close>

fun join :: "string \<Rightarrow> string list \<Rightarrow> string" where
  "join sep [] = []"
| "join sep [part] = part"
| "join sep (part # next # parts) = part @ sep @ join sep (next # parts)"

text \<open>
  \<open>s.toLowerCase()\<close> on the code units a \<^typ>\<open>char\<close> holds (below 256): the letters
  \<open>A\<close> to \<open>Z\<close> and the capital letters of Latin-1 move up by 32, every other code
  unit stays.
\<close>

definition toLowerCaseChar :: "char \<Rightarrow> char" where
  "toLowerCaseChar c =
     (let n = (of_char c :: nat)
      in if (65 \<le> n \<and> n \<le> 90) \<or> (192 \<le> n \<and> n \<le> 222 \<and> n \<noteq> 215)
         then char_of (n + 32) else c)"

definition toLowerCase :: "string \<Rightarrow> string" where
  "toLowerCase s = map toLowerCaseChar s"

text \<open>
  The class \<open>\s\<close> of a regular expression, on the code units below 256: tab, line
  feed, vertical tab, form feed, carriage return, space and no-break space.
\<close>

definition isWhiteSpace :: "char \<Rightarrow> bool" where
  "isWhiteSpace c = (let n = (of_char c :: nat) in (9 \<le> n \<and> n \<le> 13) \<or> n = 32 \<or> n = 160)"

text \<open>
  The regular expression \<open>/namespace\s+([^\s;]+)/\<close>. \<open>namespaceMatchAt s\<close> is the match
  anchored at the head of \<open>s\<close>: the greedy \<open>\s+\<close> takes the whole run of white space
  (giving some of it back never helps, the next unit would be white space), and the capture
  takes the longest run of units that are neither white space nor \<open>;\<close>. The result is
  the capture. \<open>namespaceMatch\<close> is \<open>content.match\<close>: the leftmost match.
\<close>

definition namespaceMatchAt :: "string \<Rightarrow> string option" where
  "namespaceMatchAt s =
     (if prefix ''namespace'' s
      then (let r = drop (length ''namespace'') s;
                spaces = takeWhile isWhiteSpace r;
                captured = takeWhile (\<lambda>c. \<not> isWhiteSpace c \<and> c \<noteq> CHR '';'')
                          (dropWhile isWhiteSpace r)
            in if spaces \<noteq> [] \<and> captured \<noteq> [] then Some captured else None)
      else None)"

fun namespaceMatch :: "string \<Rightarrow> string option" where
  "namespaceMatch [] = namespaceMatchAt []"
| "namespaceMatch (c # cs) =
     (case namespaceMatchAt (c # cs) of
        Some captured \<Rightarrow> Some captured
      | None \<Rightarrow> namespaceMatch cs)"

section \<open>Template types and the arguments of the rewriting functions\<close>

text \<open>
  The enumeration \<open>TemplateType\<close> lives in \<open>enums/template-type\<close>; its members are the
  five keys of the table in \<open>getTemplateConfiguration\<close>.
\<close>

datatype TemplateType = Window | UserControl | TemplatedControl | Styles | ResourceDictionary

text \<open>The object \<open>findNameSpaces\<close> returns.\<close>

record NameSpaces =
  xamlNameSpace :: string
  csharpNameSpace :: string

text \<open>
  \<open>ChangeFileContentArgs\<close> carries the same two namespace fields, so it extends
  \<open>NameSpaces\<close>.
\<close>

record ChangeFileContentArgs = NameSpaces +
  filePath :: string
  startContent :: string
  endContent :: string
  templateType :: TemplateType
  openFile :: bool
  isCSharpFile :: bool

text \<open>
  \<open>ChangeNamespaceArgs\<close>. Its fields are written with the prefix \<open>ns_\<close>, since
  \<open>templateType\<close> is a field of the record above and the other names are the names of
  parameters of the functions below.
\<close>

record ChangeNamespaceArgs =
  ns_templateType :: TemplateType
  ns_createPath :: string
  ns_projectPath :: string
  ns_fileName :: string
  ns_frontendModifiedStartContent :: string
  ns_frontendModifiedEndContent :: string
  ns_backendModifiedStartContent :: string
  ns_backendModifiedEndContent :: string

record TemplateConfig =
  typeName :: string
  dotnetTemplate :: string
  supportsViewModel :: bool
  requiresNamespaceUpdate :: bool

section \<open>Files, the editor and errors\<close>

text \<open>
  The extension reads and writes whole files. \<open>files\<close> maps a path to the content of
  the file there, and \<open>shown\<close> records the documents the editor was asked to display.
  The editor is no part of the extension: in the model it displays every file that exists
  and throws for a file that does not.
\<close>

record world =
  files :: "string \<rightharpoonup> string"
  shown :: "string list"

text \<open>
  A thrown value: \<open>ENOENT p\<close> is the error of the file system for a missing file \<open>p\<close>,
  \<open>Error m\<close> is \<open>new Error(m)\<close>.
\<close>

datatype error = ENOENT string | Error string

definition readFileSync :: "world \<Rightarrow> string \<Rightarrow> error + string" where
  "readFileSync w p = (case files w p of None \<Rightarrow> Inl (ENOENT p) | Some c \<Rightarrow> Inr c)"

definition writeFileSync :: "world \<Rightarrow> string \<Rightarrow> string \<Rightarrow> world" where
  "writeFileSync w p c = w\<lparr>files := (files w)(p \<mapsto> c)\<rparr>"

definition openTextDocument :: "world \<Rightarrow> string \<Rightarrow> error + world" where
  "openTextDocument w p =
     (case files w p of None \<Rightarrow> Inl (ENOENT p) | Some c \<Rightarrow> Inr (w\<lparr>shown := shown w @ [p]\<rparr>))"

section \<open>changeFileContent\<close>

definition namespaceToUse :: "ChangeFileContentArgs \<Rightarrow> string" where
  "namespaceToUse args =
     (if isCSharpFile args \<or> templateType args = TemplatedControl
      then csharpNameSpace args else xamlNameSpace args)"

text \<open>The text \<open>changeFileContent\<close> computes from the content it has read.\<close>

definition modifiedData :: "ChangeFileContentArgs \<Rightarrow> string \<Rightarrow> string" where
  "modifiedData args fileContent =
     (let modifiedStartIndex =
            indexOf fileContent (startContent args) 0 + int (length (startContent args));
          modifiedEndIndex = indexOf fileContent (endContent args) modifiedStartIndex
      in substring fileContent 0 modifiedStartIndex @ namespaceToUse args
         @ substringFrom fileContent modifiedEndIndex)"

text \<open>
  The \<open>catch\<close> block of \<open>changeFileContent\<close> logs and rethrows, so an error of the
  body is the error of the call.
\<close>

definition changeFileContent :: "ChangeFileContentArgs \<Rightarrow> world \<Rightarrow> error + world" where
  "changeFileContent args w =
     (case readFileSync w (filePath args) of
        Inl e \<Rightarrow> Inl e
      | Inr fileContent \<Rightarrow>
          (let w' = writeFileSync w (filePath args) (modifiedData args fileContent)
           in if openFile args then openTextDocument w' (filePath args) else Inr w'))"

section \<open>The path module and directories\<close>

text \<open>
  The functions \<open>path.join\<close> and \<open>path.relative\<close> and the separator \<open>path.sep\<close>
  belong to the platform, not to the extension. They are parameters of the model.
\<close>

record path_module =
  path_sep :: char
  path_join :: "string \<Rightarrow> string \<Rightarrow> string"
  path_relative :: "string \<Rightarrow> string \<Rightarrow> string"

text \<open>
  An entry of a directory is a file or a subdirectory. A subdirectory carries what
  \<open>fs.readdirSync\<close> answers for it: \<open>Some\<close> of its entries, or \<open>None\<close> when the call
  throws (a directory that cannot be read). \<open>isDirectory()\<close> of an entry holds for
  \<open>Directory\<close> only.
\<close>

datatype dirent = File string | Directory string "dirent list option"

fun dirent_name :: "dirent \<Rightarrow> string" where
  "dirent_name (File n) = n"
| "dirent_name (Directory n sub) = n"

text \<open>
  A function of the extension that takes the path of a directory and lists it takes, in
  the model, the path together with the answer of \<open>fs.readdirSync\<close> for that path.
\<close>

type_synonym listing = "dirent list option"

section \<open>Locating the solution or project directory\<close>

text \<open>
  \<open>containsSolutionOrProject\<close> looks at the names of all entries of the listing; an
  error of the listing is caught and answered with \<open>false\<close>.
\<close>

definition containsSolutionOrProject :: "listing \<Rightarrow> bool" where
  "containsSolutionOrProject l =
     (case l of
        None \<Rightarrow> False
      | Some entries \<Rightarrow>
          list_ex (\<lambda>file. endsWith file ''.sln'' \<or> endsWith file ''.csproj'')
            (map dirent_name entries))"

text \<open>
  \<open>findSolutionOrProjectRecursive\<close> and the \<open>for\<close> loop of its body. The answer is the
  directory found, as its path and its listing, or \<open>None\<close> for \<open>null\<close>. The test
  \<open>if (result)\<close> of the loop holds for a string that is not empty.
\<close>

fun findSolutionOrProjectRecursive ::
    "path_module \<Rightarrow> string \<Rightarrow> listing \<Rightarrow> (string \<times> listing) option"
  and findSolutionOrProjectRecursive_loop ::
    "path_module \<Rightarrow> string \<Rightarrow> dirent list \<Rightarrow> (string \<times> listing) option"
where
  "findSolutionOrProjectRecursive pm dir None = None"
| "findSolutionOrProjectRecursive pm dir (Some items) =
     findSolutionOrProjectRecursive_loop pm dir items"
| "findSolutionOrProjectRecursive_loop pm dir [] = None"
| "findSolutionOrProjectRecursive_loop pm dir (File n # items) =
     findSolutionOrProjectRecursive_loop pm dir items"
| "findSolutionOrProjectRecursive_loop pm dir (Directory n sub # items) =
     (let subDir = path_join pm dir n
      in if containsSolutionOrProject sub then Some (subDir, sub)
         else case findSolutionOrProjectRecursive pm subDir sub of
                Some (result, l) \<Rightarrow>
                  if result \<noteq> [] then Some (result, l)
                  else findSolutionOrProjectRecursive_loop pm dir items
              | None \<Rightarrow> findSolutionOrProjectRecursive_loop pm dir items)"

definition findSolutionOrProjectDirectory ::
    "path_module \<Rightarrow> string \<Rightarrow> listing \<Rightarrow> (string \<times> listing) option" where
  "findSolutionOrProjectDirectory pm startDir l =
     (if containsSolutionOrProject l then Some (startDir, l)
      else findSolutionOrProjectRecursive pm startDir l)"

section \<open>Building the namespace\<close>

text \<open>
  \<open>analyzeSolutionDirectory\<close> lists the directory outside any \<open>try\<close>, so an error of
  the listing is thrown. The answer is the pair \<open>(isSolutionDir, projectName)\<close>.
\<close>

definition analyzeSolutionDirectory :: "string \<Rightarrow> listing \<Rightarrow> error + (bool \<times> string)" where
  "analyzeSolutionDirectory solutionDir l =
     (case l of
        None \<Rightarrow> Inl (ENOENT solutionDir)
      | Some entries \<Rightarrow>
          (let isSolutionDir = list_ex (\<lambda>file. endsWith file ''.sln'') (map dirent_name entries);
               projectName =
                 (if \<not> isSolutionDir
                  then (case find (\<lambda>file. endsWith file ''.csproj'') (map dirent_name entries) of
                          Some csprojFile \<Rightarrow> replace_js csprojFile ''.csproj'' []
                        | None \<Rightarrow> [])
                  else [])
           in Inr (isSolutionDir, projectName)))"

text \<open>The variable \<open>namespace\<close> of the source is assigned three times.\<close>

definition constructNamespace ::
    "path_module \<Rightarrow> string \<Rightarrow> string \<Rightarrow> string \<Rightarrow> bool \<Rightarrow> string \<Rightarrow> string" where
  "constructNamespace pm createPath solutionDir fileName isSolutionDir projectName =
     (let relativePath = path_relative pm solutionDir createPath;
          namespace1 = join ''.'' (filter (\<lambda>part. part \<noteq> []) (split (path_sep pm) relativePath));
          namespace2 = (if namespace1 \<noteq> [] then namespace1 @ ''.'' @ fileName else fileName);
          namespace3 = (if \<not> isSolutionDir \<and> projectName \<noteq> []
                        then projectName @ ''.'' @ namespace2 else namespace2)
      in namespace3)"

text \<open>
  \<open>findNameSpaces\<close>; \<open>l\<close> is the listing of \<open>projectPath\<close>. The tests
  \<open>!solutionDir\<close> and \<open>!namespace\<close> hold for \<open>null\<close> and for the empty string.
\<close>

definition findNameSpaces ::
    "path_module \<Rightarrow> listing \<Rightarrow> string \<Rightarrow> string \<Rightarrow> string \<Rightarrow> error + NameSpaces" where
  "findNameSpaces pm l createPath projectPath fileName =
     (case findSolutionOrProjectDirectory pm projectPath l of
        None \<Rightarrow> Inl (Error ''Solution or project file not found in workspace.'')
      | Some (solutionDir, sl) \<Rightarrow>
          if solutionDir = [] then Inl (Error ''Solution or project file not found in workspace.'')
          else (case analyzeSolutionDirectory solutionDir sl of
                  Inl e \<Rightarrow> Inl e
                | Inr (isSolutionDir, projectName) \<Rightarrow>
                    (let namespace =
                           constructNamespace pm createPath solutionDir fileName isSolutionDir projectName
                     in if namespace = [] then Inl (Error ''Namespace not found.'')
                        else Inr \<lparr>xamlNameSpace = namespace,
                                  csharpNameSpace =
                                    (if includes_js namespace ''.''
                                     then substring namespace 0 (lastIndexOf namespace ''.'')
                                     else namespace)\<rparr>)))"

section \<open>Template configuration and the namespace update\<close>

definition getTemplateConfiguration :: "TemplateType \<Rightarrow> TemplateConfig" where
  "getTemplateConfiguration t =
     (case t of
        Window \<Rightarrow>
          \<lparr>typeName = ''Window'', dotnetTemplate = ''avalonia.window'',
           supportsViewModel = True, requiresNamespaceUpdate = True\<rparr>
      | UserControl \<Rightarrow>
          \<lparr>typeName = ''UserControl'', dotnetTemplate = ''avalonia.usercontrol'',
           supportsViewModel = True, requiresNamespaceUpdate = True\<rparr>
      | TemplatedControl \<Rightarrow>
          \<lparr>typeName = ''TemplatedControl'', dotnetTemplate = ''avalonia.templatedcontrol'',
           supportsViewModel = False, requiresNamespaceUpdate = True\<rparr>
      | Styles \<Rightarrow>
          \<lparr>typeName = ''Styles'', dotnetTemplate = ''avalonia.styles'',
           supportsViewModel = False, requiresNamespaceUpdate = False\<rparr>
      | ResourceDictionary \<Rightarrow>
          \<lparr>typeName = ''ResourceDictionary'', dotnetTemplate = ''avalonia.resource'',
           supportsViewModel = False, requiresNamespaceUpdate = False\<rparr>)"

text \<open>The double quote, the carriage return and the line feed.\<close>

abbreviation dquote :: char where
  "dquote \<equiv> CHR 0x22"

abbreviation CRLF :: string where
  "CRLF \<equiv> [CHR 0x0D, CHR 0x0A]"

text \<open>
  \<open>changeNamespaces\<close>: the markup file first, then the code-behind file; the second call
  is not reached when the first throws. \<open>l\<close> is the listing of the project path.
\<close>

definition changeNamespaces ::
    "path_module \<Rightarrow> listing \<Rightarrow> ChangeNamespaceArgs \<Rightarrow> world \<Rightarrow> error + world" where
  "changeNamespaces pm l args w =
     (case findNameSpaces pm l (ns_createPath args) (ns_projectPath args) (ns_fileName args) of
        Inl e \<Rightarrow> Inl e
      | Inr namespaces \<Rightarrow>
          (let frontendFilePath = path_join pm (ns_createPath args) (ns_fileName args @ ''.axaml'');
               backendFilePath = path_join pm (ns_createPath args) (ns_fileName args @ ''.axaml.cs'')
           in case changeFileContent
                     \<lparr>xamlNameSpace = xamlNameSpace namespaces,
                      csharpNameSpace = csharpNameSpace namespaces,
                      filePath = frontendFilePath,
                      startContent = ns_frontendModifiedStartContent args,
                      endContent = ns_frontendModifiedEndContent args,
                      templateType = ns_templateType args,
                      openFile = True,
                      isCSharpFile = False\<rparr> w of
                Inl e \<Rightarrow> Inl e
              | Inr w' \<Rightarrow>
                  changeFileContent
                     \<lparr>xamlNameSpace = xamlNameSpace namespaces,
                      csharpNameSpace = csharpNameSpace namespaces,
                      filePath = backendFilePath,
                      startContent = ns_backendModifiedStartContent args,
                      endContent = ns_backendModifiedEndContent args,
                      templateType = ns_templateType args,
                      openFile = False,
                      isCSharpFile = True\<rparr> w'))"

definition updateTemplateNamespaces ::
    "path_module \<Rightarrow> listing \<Rightarrow> TemplateType \<Rightarrow> string \<Rightarrow> string \<Rightarrow> string \<Rightarrow> world
       \<Rightarrow> error + world" where
  "updateTemplateNamespaces pm l t createPath projectPath fileName w =
     changeNamespaces pm l
       \<lparr>ns_templateType = t,
        ns_createPath = createPath,
        ns_projectPath = projectPath,
        ns_fileName = fileName,
        ns_frontendModifiedStartContent =
          (if t = TemplatedControl then ''xmlns:controls='' @ [dquote] @ ''using:''
           else ''x:Class='' @ [dquote]),
        ns_frontendModifiedEndContent =
          (if t = TemplatedControl then [dquote] @ ''>'' else [dquote]),
        ns_backendModifiedStartContent = ''namespace '',
        ns_backendModifiedEndContent = '';''\<rparr> w"

section \<open>The view model: directory, file name and inheritance\<close>

text \<open>
  \<open>createViewModel\<close> runs the external generator between the steps below, so its
  locals are modelled one by one.
\<close>

text \<open>
  The view path is a string of UTF-16 code units, each a number. \<open>units\<close> reads a
  \<^typ>\<open>string\<close> as such a string.
\<close>

type_synonym code_units = "nat list"

definition units :: "string \<Rightarrow> code_units" where
  "units s = map of_char s"

text \<open>
  \<open>s.toLowerCase()\<close> on code units. The letters \<open>A\<close> to \<open>Z\<close> and the capital letters
  of Latin-1 move up by 32, as in \<open>toLowerCaseChar\<close>. The capital I with dot above,
  U+0130 (304), becomes two code units: the letter \<open>i\<close> (105) and the combining dot above,
  U+0307 (775). It is the one character whose lower case is longer than itself. The
  model covers the strings made of U+0130 and of code units below 256; the lower case of
  the other letters from 256 on is left out, and they stay as they are.
\<close>

definition toLowerCaseUnit :: "nat \<Rightarrow> code_units" where
  "toLowerCaseUnit u =
     (if u = 304 then [105, 775]
      else if (65 \<le> u \<and> u \<le> 90) \<or> (192 \<le> u \<and> u \<le> 222 \<and> u \<noteq> 215) then [u + 32]
      else [u])"

definition toLowerCase_units :: "code_units \<Rightarrow> code_units" where
  "toLowerCase_units s = concat (map toLowerCaseUnit s)"

text \<open>
  \<open>createViewModel_paths\<close> is the pair \<open>(directoryPath, viewModelsPath)\<close> after the
  \<open>if\<close> on the views folder; the marker is the backslash followed by \<open>views\<close>.
  The offset \<open>viewsIndex\<close> is found in the lower-cased path and then used on the path
  itself. \<open>pathJoin\<close> is the platform's \<open>path.join\<close> on strings of code units, a
  parameter as the path module is.
\<close>

definition backslashViews :: string where
  "backslashViews = CHR 0x5C # ''views''"

definition createViewModel_paths ::
    "(code_units \<Rightarrow> code_units \<Rightarrow> code_units) \<Rightarrow> code_units \<Rightarrow> code_units \<times> code_units" where
  "createViewModel_paths pathJoin viewPath =
     (if includes_js (toLowerCase_units viewPath) (units backslashViews)
      then (let viewsIndex = indexOf (toLowerCase_units viewPath) (units backslashViews) 0;
                basePath = substring viewPath 0 viewsIndex;
                viewModelsPath = pathJoin basePath (units ''ViewModels'');
                viewsSubPath =
                  substringFrom viewPath (viewsIndex + int (length (units backslashViews)))
            in (pathJoin viewModelsPath viewsSubPath, viewModelsPath))
      else (viewPath, viewPath))"

text \<open>The constant \<open>fileName\<close> of \<open>createViewModel\<close>.\<close>

definition createViewModel_fileName :: "string \<Rightarrow> string" where
  "createViewModel_fileName viewName =
     (if endsWith (toLowerCase viewName) ''view'' then viewName @ ''Model''
      else viewName @ ''ViewModel'')"

text \<open>
  \<open>findViewModelBaseNamespace\<close> and \<open>findViewModelNamespace\<close> have the same body; an
  error of the read is caught and answered with \<open>null\<close>.
\<close>

definition findViewModelBaseNamespace :: "world \<Rightarrow> string \<Rightarrow> string option" where
  "findViewModelBaseNamespace w viewModelBasePath =
     (case readFileSync w viewModelBasePath of
        Inl e \<Rightarrow> None
      | Inr content \<Rightarrow> namespaceMatch content)"

definition findViewModelNamespace :: "world \<Rightarrow> string \<Rightarrow> string option" where
  "findViewModelNamespace w viewModelFilePath =
     (case readFileSync w viewModelFilePath of
        Inl e \<Rightarrow> None
      | Inr content \<Rightarrow> namespaceMatch content)"

definition existsSync :: "world \<Rightarrow> string \<Rightarrow> bool" where
  "existsSync w p = (files w p \<noteq> None)"

text \<open>
  The content of the view model after the optional \<open>using\<close> statement. A namespace
  that was found is never empty, so the test \<open>a && b && a !== b\<close> is the test below.
\<close>

definition withUsingStatement :: "string option \<Rightarrow> string option \<Rightarrow> string \<Rightarrow> string" where
  "withUsingStatement viewModelBaseNamespace viewModelNamespace fileContent =
     (case (viewModelBaseNamespace, viewModelNamespace) of
        (Some b, Some v) \<Rightarrow>
          if b \<noteq> [] \<and> v \<noteq> [] \<and> b \<noteq> v
          then (let usingStatement = ''using '' @ b @ '';'' @ CRLF @ CRLF;
                    namespaceIndex = indexOf fileContent ''namespace '' 0
                in if namespaceIndex \<noteq> - 1
                   then substring fileContent 0 namespaceIndex @ usingStatement
                        @ substringFrom fileContent namespaceIndex
                   else fileContent)
          else fileContent
      | _ \<Rightarrow> fileContent)"

text \<open>The text written by the step "Add inheritance".\<close>

definition addInheritance :: "string \<Rightarrow> string \<Rightarrow> string" where
  "addInheritance viewModelFileName fileContent =
     (let startIndex = indexOf fileContent ('' class '' @ viewModelFileName) 0;
          endIndex = indexOf fileContent ''{'' startIndex
      in substring fileContent 0 startIndex
         @ '' class '' @ viewModelFileName @ '' : ViewModelBase'' @ CRLF
         @ substringFrom fileContent endIndex)"

definition inheritFromViewModelBaseIfExists ::
    "path_module \<Rightarrow> string \<Rightarrow> string \<Rightarrow> string \<Rightarrow> world \<Rightarrow> error + world" where
  "inheritFromViewModelBaseIfExists pm viewModelFilePath viewModelFileName viewModelsPath w =
     (let viewModelBasePath = path_join pm viewModelsPath ''ViewModelBase.cs''
      in if \<not> existsSync w viewModelBasePath then Inr w
         else (let viewModelBaseNamespace = findViewModelBaseNamespace w viewModelBasePath;
                   viewModelNamespace = findViewModelNamespace w viewModelFilePath
               in case readFileSync w viewModelFilePath of
                    Inl e \<Rightarrow> Inl e
                  | Inr fileContent \<Rightarrow>
                      Inr (writeFileSync w viewModelFilePath
                             (addInheritance viewModelFileName
                                (withUsingStatement viewModelBaseNamespace viewModelNamespace
                                   fileContent)))))"

section \<open>Occurrences of a marker\<close>

text \<open>
  \<open>occursAt pat s i\<close>: the text \<open>s\<close> reads \<open>pat\<close> from offset \<open>i\<close> on.
  \<open>firstOccurrence pat s k i\<close>: \<open>i\<close> is the least offset from \<open>k\<close> on where it does.
\<close>

definition occursAt :: "'a list \<Rightarrow> 'a list \<Rightarrow> nat \<Rightarrow> bool" where
  "occursAt pat s i = (i \<le> length s \<and> prefix pat (drop i s))"

definition firstOccurrence :: "'a list \<Rightarrow> 'a list \<Rightarrow> nat \<Rightarrow> nat \<Rightarrow> bool" where
  "firstOccurrence pat s k i =
     (k \<le> i \<and> occursAt pat s i \<and> list_all (\<lambda>j. \<not> occursAt pat s j) [k..<i])"

text \<open>\<open>occurs pat s k\<close>: the marker occurs somewhere from offset \<open>k\<close> on.\<close>

definition occurs :: "'a list \<Rightarrow> 'a list \<Rightarrow> nat \<Rightarrow> bool" where
  "occurs pat s k = list_ex (occursAt pat s) [k..<Suc (length s)]"

section \<open>A path module for the examples\<close>

text \<open>
  POSIX paths: the separator is the slash, \<open>path.join\<close> of a directory without a
  trailing slash and a plain name puts the slash between them, and \<open>path.relative\<close>
  from a directory to a path below it drops the directory and the slash.
\<close>

definition posixPath :: path_module where
  "posixPath =
     \<lparr>path_sep = CHR ''/'',
      path_join = (\<lambda>dir name. dir @ ''/'' @ name),
      path_relative = (\<lambda>from to. drop (Suc (length from)) to)\<rparr>"

section \<open>The traversal order of the search\<close>

text \<open>
  The subdirectories below a directory in depth-first pre-order, each as its path and its
  listing: a subdirectory comes before the subdirectories below it, and those come before
  its later siblings. Files are not followed, and nothing is below a directory that cannot
  be read.
\<close>

fun subdirectories :: "path_module \<Rightarrow> string \<Rightarrow> listing \<Rightarrow> (string \<times> listing) list"
  and subdirectories_of :: "path_module \<Rightarrow> string \<Rightarrow> dirent list \<Rightarrow> (string \<times> listing) list"
where
  "subdirectories pm dir None = []"
| "subdirectories pm dir (Some items) = subdirectories_of pm dir items"
| "subdirectories_of pm dir [] = []"
| "subdirectories_of pm dir (File n # items) = subdirectories_of pm dir items"
| "subdirectories_of pm dir (Directory n sub # items) =
     (path_join pm dir n, sub) # subdirectories pm (path_join pm dir n) sub
       @ subdirectories_of pm dir items"

text \<open>The marker test on a directory given as path and listing.\<close>

definition hasMarker :: "string \<times> listing \<Rightarrow> bool" where
  "hasMarker d = containsSolutionOrProject (snd d)"

section \<open>The markers of the markup file and the ending of a view name\<close>

text \<open>
  The start and end markers of the namespace in a markup file: the \<open>xmlns:controls\<close>
  attribute for a templated control, the \<open>x:Class\<close> attribute for every other type.
\<close>

definition markupStartMarker :: "TemplateType \<Rightarrow> string" where
  "markupStartMarker t =
     (if t = TemplatedControl then ''xmlns:controls='' @ [dquote] @ ''using:''
      else ''x:Class='' @ [dquote])"

definition markupEndMarker :: "TemplateType \<Rightarrow> string" where
  "markupEndMarker t = (if t = TemplatedControl then [dquote] @ ''>'' else [dquote])"

text \<open>
  A name ends with \<open>view\<close> in any mix of upper and lower case: its last four characters
  are one of the sixteen spellings.
\<close>

definition endsWithViewAnyCase :: "string \<Rightarrow> bool" where
  "endsWithViewAnyCase s =
     (4 \<le> length s \<and>
      drop (length s - 4) s \<in>
        set [[v, i, e, w]. v \<leftarrow> ''vV'', i \<leftarrow> ''iI'', e \<leftarrow> ''eE'', w \<leftarrow> ''wW''])"

abbreviation backslash :: char where
  "backslash \<equiv> CHR 0x5C"

section \<open>Properties of the string primitives\<close>

lemma searchFrom_Some:
  "searchFrom pat s = Some i \<Longrightarrow>
     i \<le> length s \<and> prefix pat (drop i s) \<and> (\<forall>j<i. \<not> prefix pat (drop j s))"
proof (induction s arbitrary: i)
  case Nil
  then show ?case by (simp split: if_splits)
next
  case (Cons c cs)
  show ?case
  proof (cases "prefix pat (c # cs)")
    case True
    with Cons.prems show ?thesis by simp
  next
    case False
    with Cons.prems obtain i' where i': "searchFrom pat cs = Some i'" "i = Suc i'"
      by (auto split: option.splits)
    from Cons.IH[OF i'(1)] have ih: "i' \<le> length cs" "prefix pat (drop i' cs)"
      "\<forall>j<i'. \<not> prefix pat (drop j cs)" by auto
    have "\<not> prefix pat (drop j (c # cs))" if "j < i" for j
    proof (cases j)
      case 0
      with False show ?thesis by simp
    next
      case (Suc j')
      with that i'(2) ih(3) show ?thesis by simp
    qed
    with ih i'(2) show ?thesis by simp
  qed
qed

lemma searchFrom_None:
  "searchFrom pat s = None \<Longrightarrow> j \<le> length s \<Longrightarrow> \<not> prefix pat (drop j s)"
proof (induction s arbitrary: j)
  case Nil
  then show ?case by (simp split: if_splits)
next
  case (Cons c cs)
  from Cons.prems(1) have np: "\<not> prefix pat (c # cs)" and n: "searchFrom pat cs = None"
    by (auto split: if_splits option.splits)
  show ?case
  proof (cases j)
    case 0
    with np show ?thesis by simp
  next
    case (Suc j')
    with Cons.prems(2) Cons.IH[OF n, of j'] show ?thesis by simp
  qed
qed

lemma searchFrom_first:
  assumes "i \<le> length s" "prefix pat (drop i s)" "\<forall>j<i. \<not> prefix pat (drop j s)"
  shows "searchFrom pat s = Some i"
proof (cases "searchFrom pat s")
  case None
  with searchFrom_None[OF None assms(1)] assms(2) show ?thesis by simp
next
  case (Some k)
  from searchFrom_Some[OF Some] have k: "k \<le> length s" "prefix pat (drop k s)"
    "\<forall>j<k. \<not> prefix pat (drop j s)" by auto
  have "\<not> k < i" using assms(3) k(2) by blast
  moreover have "\<not> i < k" using k(3) assms(2) by blast
  ultimately show ?thesis using Some by simp
qed

lemma indexOf_first:
  assumes "firstOccurrence pat s k i" "k \<le> length s"
  shows "indexOf s pat (int k) = int i"
proof -
  from assms(1) have ki: "k \<le> i" and il: "i \<le> length s" and p: "prefix pat (drop i s)"
    and first: "\<forall>j \<in> {k..<i}. \<not> (j \<le> length s \<and> prefix pat (drop j s))"
    by (auto simp: firstOccurrence_def occursAt_def list_all_iff)
  have a: "i - k \<le> length (drop k s)" using il by simp
  have b: "prefix pat (drop (i - k) (drop k s))" using p ki by simp
  have c: "\<forall>j<i - k. \<not> prefix pat (drop j (drop k s))"
  proof (intro allI impI)
    fix j assume "j < i - k"
    then have "k + j \<in> {k..<i}" "k + j \<le> length s" using il by auto
    with first have "\<not> prefix pat (drop (k + j) s)" by blast
    then show "\<not> prefix pat (drop j (drop k s))" by (simp add: add.commute)
  qed
  from searchFrom_first[OF a b c] ki assms(2) show ?thesis
    by (simp add: indexOf_def clampIndex_def)
qed

lemma indexOf_absent:
  assumes "\<not> occurs pat s k" "k \<le> length s"
  shows "indexOf s pat (int k) = - 1"
proof (cases "searchFrom pat (drop k s)")
  case None
  with assms(2) show ?thesis by (simp add: indexOf_def clampIndex_def)
next
  case (Some i)
  from searchFrom_Some[OF Some] have "i \<le> length s - k" "prefix pat (drop (k + i) s)"
    by (auto simp: add.commute)
  with assms(2) have "occursAt pat s (k + i)" "k + i \<le> length s"
    by (simp_all add: occursAt_def)
  then have "occurs pat s k"
    unfolding occurs_def list_ex_iff by (intro bexI[of _ "k + i"]) auto
  with assms(1) show ?thesis by simp
qed

lemma occursAt_split:
  assumes "occursAt pat s i"
  shows "i + length pat \<le> length s" "take (i + length pat) s = take i s @ pat"
    "drop i s = pat @ drop (i + length pat) s"
proof -
  from assms have il: "i \<le> length s" and "prefix pat (drop i s)"
    by (simp_all add: occursAt_def)
  then obtain r where r: "drop i s = pat @ r" by (auto simp: prefix_def)
  then have "length (drop i s) = length pat + length r" by simp
  with il show le: "i + length pat \<le> length s" by simp
  have "drop (i + length pat) s = drop (length pat) (drop i s)" by (simp add: add.commute)
  also have "\<dots> = r" using r by simp
  finally show "drop i s = pat @ drop (i + length pat) s" using r by simp
  have "take (i + length pat) s = take i s @ take (length pat) (drop i s)"
    by (simp add: take_add)
  with r show "take (i + length pat) s = take i s @ pat" by simp
qed

lemma substring_take:
  "n \<le> length s \<Longrightarrow> substring s 0 (int n) = take n s"
  by (simp add: substring_def clampIndex_def Let_def)

lemma substringFrom_drop:
  "n \<le> length s \<Longrightarrow> substringFrom s (int n) = drop n s"
  by (simp add: substringFrom_def substring_def clampIndex_def Let_def)

lemma modifiedData_found:
  assumes "firstOccurrence (startContent args) text 0 i"
    and "firstOccurrence (endContent args) text (i + length (startContent args)) j"
  shows "modifiedData args text =
           take (i + length (startContent args)) text @ namespaceToUse args @ drop j text"
proof -
  let ?a = "i + length (startContent args)"
  from assms(1) have oi: "occursAt (startContent args) text i"
    by (simp add: firstOccurrence_def)
  from assms(2) have oj: "occursAt (endContent args) text j"
    by (simp add: firstOccurrence_def)
  have a: "?a \<le> length text" using occursAt_split(1)[OF oi] .
  have j: "j \<le> length text" using oj by (simp add: occursAt_def)
  have i0: "indexOf text (startContent args) 0 = int i"
    using indexOf_first[OF assms(1)] by simp
  have j0: "indexOf text (endContent args) (int ?a) = int j"
    using indexOf_first[OF assms(2) a] .
  have "int i + int (length (startContent args)) = int ?a" by simp
  then show ?thesis
    unfolding modifiedData_def Let_def i0
    using j0 substring_take[OF a] substringFrom_drop[OF j] by simp
qed

section \<open>Region substitution\<close>

text \<open>
  Claim C2. When the start marker occurs in the text, first at offset \<open>i\<close>, and the end
  marker occurs at or after the end of that occurrence, first at offset \<open>j\<close>, then the
  text is the part before the start marker, the start marker, a middle span, the end marker
  and the rest, and \<open>changeFileContent\<close> writes the same text with the middle span
  replaced by the namespace: every character up to the end of the start marker and every
  character from the end marker on is the one of the input. The call succeeds, and the
  editor is asked to show the file exactly when \<open>openFile\<close> is set.
\<close>

theorem changeFileContent_replaces_span:
  assumes "files w (filePath args) = Some text"
    and "firstOccurrence (startContent args) text 0 i"
    and "firstOccurrence (endContent args) text (i + length (startContent args)) j"
  shows "text = take i text @ startContent args
                  @ take (j - (i + length (startContent args)))
                      (drop (i + length (startContent args)) text)
                  @ endContent args @ drop (j + length (endContent args)) text
         \<and> changeFileContent args w =
             Inr (w\<lparr>files := (files w)(filePath args \<mapsto>
                        take i text @ startContent args @ namespaceToUse args
                          @ endContent args @ drop (j + length (endContent args)) text),
                     shown := (if openFile args then shown w @ [filePath args] else shown w)\<rparr>)"
proof -
  let ?s = "startContent args" and ?e = "endContent args"
  let ?a = "i + length ?s"
  from assms(2) have oi: "occursAt ?s text i" by (simp add: firstOccurrence_def)
  from assms(3) have oj: "occursAt ?e text j" and aj: "?a \<le> j"
    by (simp_all add: firstOccurrence_def)
  note si = occursAt_split[OF oi] and sj = occursAt_split[OF oj]
  have "drop ?a text = take (j - ?a) (drop ?a text) @ drop j text"
    using aj by (metis append_take_drop_id drop_drop le_add_diff_inverse2)
  then have "text = take i text @ ?s @ take (j - ?a) (drop ?a text) @ ?e
                      @ drop (j + length ?e) text"
    using si(2) sj(3) by (metis append_take_drop_id append.assoc)
  moreover have "modifiedData args text =
      take i text @ ?s @ namespaceToUse args @ ?e @ drop (j + length ?e) text"
    using modifiedData_found[OF assms(2,3)] si(2) sj(3) by simp
  then have "changeFileContent args w =
             Inr (w\<lparr>files := (files w)(filePath args \<mapsto>
                        take i text @ ?s @ namespaceToUse args
                          @ ?e @ drop (j + length ?e) text),
                     shown := (if openFile args then shown w @ [filePath args] else shown w)\<rparr>)"
    using assms(1)
    by (simp add: changeFileContent_def readFileSync_def writeFileSync_def
        openTextDocument_def Let_def)
  ultimately show ?thesis by blast
qed

theorem changeFileContent_replaces_span_witness:
  "changeFileContent
     \<lparr>xamlNameSpace = ''App.Views.Foo'', csharpNameSpace = ''App.Views'',
      filePath = ''Foo.axaml.cs'', startContent = ''namespace '', endContent = '';'',
      templateType = Window, openFile = False, isCSharpFile = True\<rparr>
     \<lparr>files = [''Foo.axaml.cs'' \<mapsto> ''using A; namespace Old; class Foo {}''], shown = []\<rparr>
   = Inr \<lparr>files = [''Foo.axaml.cs'' \<mapsto> ''using A; namespace App.Views; class Foo {}''],
          shown = []\<rparr>"
proof -
  let ?args = "\<lparr>xamlNameSpace = ''App.Views.Foo'', csharpNameSpace = ''App.Views'',
      filePath = ''Foo.axaml.cs'', startContent = ''namespace '', endContent = '';'',
      templateType = Window, openFile = False, isCSharpFile = True\<rparr>"
  let ?w = "\<lparr>files = [''Foo.axaml.cs'' \<mapsto> ''using A; namespace Old; class Foo {}''], shown = []\<rparr>"
  let ?text = "''using A; namespace Old; class Foo {}''"
  have f: "files ?w (filePath ?args) = Some ?text" by simp
  have s: "firstOccurrence (startContent ?args) ?text 0 9"
    by (simp add: firstOccurrence_def occursAt_def upt_rec)
  have e: "firstOccurrence (endContent ?args) ?text (9 + length (startContent ?args)) 22"
    by (simp add: firstOccurrence_def occursAt_def upt_rec)
  from changeFileContent_replaces_span[OF f s e] show ?thesis
    by (simp add: namespaceToUse_def)
qed

text \<open>
  Claim C1. A file without the start marker \<open>namespace\<close> followed by a space:
  \<open>indexOf\<close> answers \<open>-1\<close>, the start index becomes \<open>9\<close>, the end marker is not
  found from there, and \<open>changeFileContent\<close> throws nothing; it writes the first nine
  characters, the namespace and the whole old content again.
\<close>

theorem changeFileContent_missing_marker:
  "changeFileContent
     \<lparr>xamlNameSpace = ''App.Views.Foo'', csharpNameSpace = ''App.Views'',
      filePath = ''Foo.axaml.cs'', startContent = ''namespace '', endContent = '';'',
      templateType = Window, openFile = False, isCSharpFile = True\<rparr>
     \<lparr>files = [''Foo.axaml.cs'' \<mapsto> ''class Foo {}''], shown = []\<rparr>
   = Inr \<lparr>files = [''Foo.axaml.cs'' \<mapsto> ''class FooApp.Viewsclass Foo {}''], shown = []\<rparr>"
  by (simp add: changeFileContent_def readFileSync_def writeFileSync_def modifiedData_def
      namespaceToUse_def indexOf_def clampIndex_def substring_def substringFrom_def Let_def)

section \<open>The namespace of a new file\<close>

lemma split_not_Nil: "split sep s \<noteq> []"
  by (induction s) (auto split: list.splits)

text \<open>The pieces of \<open>split\<close> are the runs between the separators.\<close>

lemma split_join: "join [sep] (split sep s) = s"
proof (induction s)
  case Nil
  show ?case by simp
next
  case (Cons c cs)
  obtain p ps where ps: "split sep cs = p # ps"
    using split_not_Nil[of sep cs] by (cases "split sep cs") auto
  with Cons show ?case by (cases ps) auto
qed

lemma split_no_sep: "piece \<in> set (split sep s) \<Longrightarrow> sep \<notin> set piece"
  by (induction s arbitrary: piece) (auto split: if_splits list.splits)

lemma join_Cons:
  "join sep (part # parts) = part @ (if parts = [] then [] else sep @ join sep parts)"
  by (cases parts) simp_all

lemma join_empty_iff:
  assumes "\<forall>part \<in> set parts. part \<noteq> []"
  shows "join sep parts = [] \<longleftrightarrow> parts = []"
  using assms by (cases parts) (simp_all add: join_Cons)

text \<open>
  Claim C3. The namespace built by \<open>constructNamespace\<close> is the pieces of the relative
  path from the root to the target that are not empty, joined with dots, then a dot and
  the entity name, or the entity name alone when there is no such piece. When the root is
  a project root (no solution file) and the project name is not empty, the project name
  and a dot come first, so the result starts with them; otherwise nothing is put in front.
\<close>

theorem constructNamespace_dotted:
  "constructNamespace pm createPath solutionDir fileName isSolutionDir projectName =
     (if \<not> isSolutionDir \<and> projectName \<noteq> [] then projectName @ ''.'' else [])
     @ (let segments = filter (\<lambda>part. part \<noteq> [])
                         (split (path_sep pm) (path_relative pm solutionDir createPath))
        in if segments = [] then fileName else join ''.'' segments @ ''.'' @ fileName)
   \<and> (\<not> isSolutionDir \<and> projectName \<noteq> [] \<longrightarrow>
        prefix (projectName @ ''.'')
          (constructNamespace pm createPath solutionDir fileName isSolutionDir projectName))"
proof -
  let ?segments = "filter (\<lambda>part. part \<noteq> [])
                     (split (path_sep pm) (path_relative pm solutionDir createPath))"
  have "join ''.'' ?segments = [] \<longleftrightarrow> ?segments = []"
    by (rule join_empty_iff) simp
  then show ?thesis by (simp add: constructNamespace_def Let_def)
qed

theorem constructNamespace_dotted_witness:
  "constructNamespace posixPath ''/proj/Views/UserControls'' ''/proj'' ''SomeUserControl''
       False ''App''
     = ''App.Views.UserControls.SomeUserControl''
   \<and> prefix ''App.''
       (constructNamespace posixPath ''/proj/Views/UserControls'' ''/proj'' ''SomeUserControl''
          False ''App'')"
  using constructNamespace_dotted[of posixPath "''/proj/Views/UserControls''" "''/proj''"
      "''SomeUserControl''" False "''App''"]
  by (simp add: posixPath_def)

text \<open>The last occurrence of a character.\<close>

lemma filter_rev_upt_Nil:
  "filter P (rev [0..<n]) = [] \<Longrightarrow> i < n \<Longrightarrow> \<not> P i"
  by (simp add: filter_empty_conv)

lemma filter_rev_upt_Cons:
  "filter P (rev [0..<n]) = i # rest \<Longrightarrow> i < n \<and> P i \<and> (\<forall>j. i < j \<and> j < n \<longrightarrow> \<not> P j)"
proof (induction n)
  case 0
  then show ?case by simp
next
  case (Suc n)
  show ?case
  proof (cases "P n")
    case True
    with Suc.prems show ?thesis by auto
  next
    case False
    with Suc.prems have "filter P (rev [0..<n]) = i # rest" by simp
    from Suc.IH[OF this] False show ?thesis by (auto simp: less_Suc_eq)
  qed
qed

lemma prefix_single_drop:
  "prefix [c] (drop i s) \<longleftrightarrow> i < length s \<and> s ! i = c"
proof (cases "i < length s")
  case True
  then have "drop i s = s ! i # drop (Suc i) s" by (simp add: Cons_nth_drop_Suc)
  with True show ?thesis by auto
next
  case False
  then show ?thesis by simp
qed

lemma includes_js_char: "includes_js s [c] \<longleftrightarrow> c \<in> set s"
proof
  assume "includes_js s [c]"
  then obtain i where "searchFrom [c] s = Some i" by (auto simp: includes_js_def)
  from searchFrom_Some[OF this] show "c \<in> set s"
    by (auto simp: prefix_single_drop)
next
  assume "c \<in> set s"
  then obtain i where i: "i < length s" "s ! i = c" by (auto simp: in_set_conv_nth)
  show "includes_js s [c]"
  proof (rule ccontr)
    assume "\<not> includes_js s [c]"
    then have "searchFrom [c] s = None" by (simp add: includes_js_def)
    from searchFrom_None[OF this, of i] i show False by (simp add: prefix_single_drop)
  qed
qed

lemma lastIndexOf_char:
  assumes "c \<in> set s"
  shows "\<exists>i. lastIndexOf s [c] = int i \<and> i < length s \<and> s ! i = c
              \<and> c \<notin> set (drop (Suc i) s)"
proof -
  let ?P = "\<lambda>i. prefix [c] (drop i s)"
  from assms obtain k where k: "k < length s" "s ! k = c" by (auto simp: in_set_conv_nth)
  show ?thesis
  proof (cases "filter ?P (rev [0..<Suc (length s)])")
    case Nil
    from filter_rev_upt_Nil[OF Nil, of k] k show ?thesis by (simp add: prefix_single_drop)
  next
    case (Cons i rest)
    from filter_rev_upt_Cons[OF Cons]
    have i: "i < length s" "s ! i = c"
      and later: "\<forall>j. i < j \<and> j < Suc (length s) \<longrightarrow> \<not> ?P j"
      by (auto simp: prefix_single_drop)
    have "c \<notin> set (drop (Suc i) s)"
    proof
      assume "c \<in> set (drop (Suc i) s)"
      then obtain m where m: "m < length s - Suc i" "drop (Suc i) s ! m = c"
        by (auto simp: in_set_conv_nth)
      then have "Suc i + m < length s" "s ! (Suc i + m) = c" by simp_all
      with later show False by (simp add: prefix_single_drop)
    qed
    with i Cons show ?thesis by (simp add: lastIndexOf_def)
  qed
qed

text \<open>
  Claim C4. In what \<open>findNameSpaces\<close> returns, \<open>xamlNameSpace\<close> is the built namespace.
  When it contains a dot, \<open>csharpNameSpace\<close> is the part before its last dot: the full
  namespace is \<open>csharpNameSpace\<close>, a dot and a last piece without dots, so it starts with
  \<open>csharpNameSpace\<close> and a dot. When it contains no dot, the two are equal.
\<close>

theorem findNameSpaces_codeNamespace:
  assumes "findNameSpaces pm l createPath projectPath fileName = Inr ns"
  shows "if CHR ''.'' \<in> set (xamlNameSpace ns)
         then (\<exists>lastPiece. xamlNameSpace ns = csharpNameSpace ns @ ''.'' @ lastPiece
                 \<and> CHR ''.'' \<notin> set lastPiece)
              \<and> prefix (csharpNameSpace ns @ ''.'') (xamlNameSpace ns)
         else csharpNameSpace ns = xamlNameSpace ns"
proof -
  let ?full = "xamlNameSpace ns"
  from assms have code: "csharpNameSpace ns =
      (if includes_js ?full ''.'' then substring ?full 0 (lastIndexOf ?full ''.'') else ?full)"
    by (auto simp: findNameSpaces_def Let_def
        split: option.splits prod.splits if_splits sum.splits)
  show ?thesis
  proof (cases "CHR ''.'' \<in> set ?full")
    case True
    from lastIndexOf_char[OF True] obtain i where i: "lastIndexOf ?full ''.'' = int i"
      "i < length ?full" "?full ! i = CHR ''.''" "CHR ''.'' \<notin> set (drop (Suc i) ?full)"
      by blast
    from code True i(1,2) have c: "csharpNameSpace ns = take i ?full"
      by (simp add: includes_js_char substring_take)
    have "?full = take i ?full @ ''.'' @ drop (Suc i) ?full"
      using id_take_nth_drop[OF i(2)] i(3) by simp
    with c have eq: "?full = csharpNameSpace ns @ ''.'' @ drop (Suc i) ?full" by simp
    then have "prefix (csharpNameSpace ns @ ''.'') ?full"
      by (metis append.assoc prefixI)
    with eq i(4) True show ?thesis by auto
  next
    case False
    with code show ?thesis by (simp add: includes_js_char)
  qed
qed

theorem findNameSpaces_codeNamespace_witness:
  "findNameSpaces posixPath (Some [File ''App.csproj'', Directory ''Views'' (Some [])])
       ''/proj/Views'' ''/proj'' ''Foo''
     = Inr \<lparr>xamlNameSpace = ''App.Views.Foo'', csharpNameSpace = ''App.Views''\<rparr>
   \<and> prefix (''App.Views'' @ ''.'') ''App.Views.Foo''"
proof -
  have r: "findNameSpaces posixPath (Some [File ''App.csproj'', Directory ''Views'' (Some [])])
       ''/proj/Views'' ''/proj'' ''Foo''
     = Inr \<lparr>xamlNameSpace = ''App.Views.Foo'', csharpNameSpace = ''App.Views''\<rparr>"
    by code_simp
  from findNameSpaces_codeNamespace[OF r] r show ?thesis by simp
qed

section \<open>Locating the root\<close>

lemma hasMarker_pair: "hasMarker (p, sl) = containsSolutionOrProject sl"
  by (simp add: hasMarker_def)

lemma find_append_first:
  "find P (xs @ ys) = (case find P xs of None \<Rightarrow> find P ys | Some x \<Rightarrow> Some x)"
  by (induction xs) simp_all

lemma subdirectories_path_nonempty:
  assumes "\<And>dir name. path_join pm dir name \<noteq> []"
  shows "d \<in> set (subdirectories pm dir l) \<Longrightarrow> fst d \<noteq> []"
    and "d \<in> set (subdirectories_of pm dir items) \<Longrightarrow> fst d \<noteq> []"
  using assms
  by (induction pm dir l and pm dir items
      rule: subdirectories_subdirectories_of.induct) auto

lemma find_path_nonempty:
  assumes "\<And>dir name. path_join pm dir name \<noteq> []"
    and "find P (subdirectories pm dir l) = Some (p, sl)"
  shows "p \<noteq> []"
proof -
  from assms(2) have "(p, sl) \<in> set (subdirectories pm dir l)"
    by (auto simp: find_Some_iff)
  from subdirectories_path_nonempty(1)[OF assms(1) this] show ?thesis by simp
qed

lemma findSolutionOrProjectRecursive_preorder:
  assumes "\<And>dir name. path_join pm dir name \<noteq> []"
  shows "findSolutionOrProjectRecursive pm dir l = find hasMarker (subdirectories pm dir l)"
    and "findSolutionOrProjectRecursive_loop pm dir items
           = find hasMarker (subdirectories_of pm dir items)"
  using assms
proof (induction pm dir l and pm dir items
    rule: findSolutionOrProjectRecursive_findSolutionOrProjectRecursive_loop.induct)
  case (5 pm dir n sub items)
  let ?subDir = "path_join pm dir n"
  show ?case
  proof (cases "containsSolutionOrProject sub")
    case True
    then show ?thesis by (simp add: hasMarker_pair)
  next
    case False
    note ih1 = "5.IH"(1)[OF refl False "5.prems"]
    show ?thesis
    proof (cases "find hasMarker (subdirectories pm ?subDir sub)")
      case None
      with ih1 have r: "findSolutionOrProjectRecursive pm ?subDir sub = None" by simp
      from "5.IH"(2)[OF refl False r "5.prems"] False None r show ?thesis
        by (simp add: hasMarker_pair find_append_first)
    next
      case (Some d)
      obtain p sl where d: "d = (p, sl)" by (cases d)
      from Some d have "find hasMarker (subdirectories pm ?subDir sub) = Some (p, sl)"
        by simp
      from find_path_nonempty[OF "5.prems" this] have "p \<noteq> []" .
      with ih1 Some d False show ?thesis
        by (simp add: hasMarker_pair find_append_first)
    qed
  qed
qed simp_all


text \<open>
  Claim C5. \<open>findSolutionOrProjectDirectory\<close> tests the listing of the start directory
  first and answers the start directory when the listing holds a name ending in \<open>.sln\<close>
  or \<open>.csproj\<close>, whatever lies below it. Otherwise its answer is the first directory, in
  the depth-first pre-order of the subdirectories, whose own listing holds such a name,
  and \<open>null\<close> when there is none. The platform's \<open>path.join\<close> never answers the empty
  string, which is the hypothesis on the path module.
\<close>

theorem findSolutionOrProjectDirectory_preorder:
  assumes "\<forall>dir name. path_join pm dir name \<noteq> []"
  shows "findSolutionOrProjectDirectory pm startDir l =
           (if containsSolutionOrProject l then Some (startDir, l)
            else find hasMarker (subdirectories pm startDir l))"
  using assms findSolutionOrProjectRecursive_preorder(1)[of pm startDir l]
  by (simp add: findSolutionOrProjectDirectory_def)

theorem findSolutionOrProjectDirectory_preorder_witness:
  "findSolutionOrProjectDirectory posixPath ''/ws''
     (Some [File ''README.md'',
            Directory ''a'' (Some [File ''notes.txt'', Directory ''b'' (Some [File ''B.csproj''])]),
            Directory ''c'' (Some [File ''C.sln''])])
   = Some (''/ws/a/b'', Some [File ''B.csproj''])"
proof -
  have j: "\<forall>dir name. path_join posixPath dir name \<noteq> []"
    by (simp add: posixPath_def)
  show ?thesis
    unfolding findSolutionOrProjectDirectory_preorder[OF j]
    by (simp add: posixPath_def hasMarker_def containsSolutionOrProject_def endsWith_def)
qed

text \<open>A search that finds no marker anywhere answers \<open>null\<close>.\<close>

lemma findSolutionOrProjectRecursive_none:
  "list_all (\<lambda>d. \<not> hasMarker d) (subdirectories pm dir l) \<Longrightarrow>
     findSolutionOrProjectRecursive pm dir l = None"
  "list_all (\<lambda>d. \<not> hasMarker d) (subdirectories_of pm dir items) \<Longrightarrow>
     findSolutionOrProjectRecursive_loop pm dir items = None"
  by (induction pm dir l and pm dir items
      rule: findSolutionOrProjectRecursive_findSolutionOrProjectRecursive_loop.induct)
    (simp_all add: hasMarker_pair)

text \<open>
  Claim C6, as the code has it. In a tree where no listing holds a marker, the locator
  answers \<open>null\<close>: a directory with one text file and an empty subdirectory.
\<close>

theorem findSolutionOrProjectDirectory_null:
  "findSolutionOrProjectDirectory posixPath ''/ws''
     (Some [File ''README.md'', Directory ''docs'' (Some [])]) = None"
  by (simp add: findSolutionOrProjectDirectory_def containsSolutionOrProject_def endsWith_def)

text \<open>
  Claim C6, amended. When neither the listing of the start directory nor the listing of
  any subdirectory below it holds a marker, \<open>findSolutionOrProjectDirectory\<close> answers
  \<open>null\<close>, and \<open>findNameSpaces\<close> turns that answer into the thrown error
  \<open>Solution or project file not found in workspace.\<close>, which \<open>updateTemplateNamespaces\<close>
  passes on to its caller.
\<close>

theorem findNameSpaces_root_not_found:
  assumes "\<not> containsSolutionOrProject l"
    and "list_all (\<lambda>d. \<not> hasMarker d) (subdirectories pm projectPath l)"
  shows "findSolutionOrProjectDirectory pm projectPath l = None
       \<and> findNameSpaces pm l createPath projectPath fileName
           = Inl (Error ''Solution or project file not found in workspace.'')
       \<and> updateTemplateNamespaces pm l t createPath projectPath fileName w
           = Inl (Error ''Solution or project file not found in workspace.'')"
proof -
  have n: "findSolutionOrProjectDirectory pm projectPath l = None"
    using assms findSolutionOrProjectRecursive_none(1)[of pm projectPath l]
    by (simp add: findSolutionOrProjectDirectory_def)
  then have f: "findNameSpaces pm l createPath projectPath fileName
           = Inl (Error ''Solution or project file not found in workspace.'')"
    by (simp add: findNameSpaces_def)
  then have "updateTemplateNamespaces pm l t createPath projectPath fileName w
           = Inl (Error ''Solution or project file not found in workspace.'')"
    by (simp add: updateTemplateNamespaces_def changeNamespaces_def)
  with n f show ?thesis by simp
qed

theorem findNameSpaces_root_not_found_witness:
  "findSolutionOrProjectDirectory posixPath ''/ws''
       (Some [File ''README.md'', Directory ''docs'' (Some [File ''index.md''])]) = None
   \<and> findNameSpaces posixPath
         (Some [File ''README.md'', Directory ''docs'' (Some [File ''index.md''])])
         ''/ws/docs'' ''/ws'' ''Foo''
       = Inl (Error ''Solution or project file not found in workspace.'')
   \<and> updateTemplateNamespaces posixPath
         (Some [File ''README.md'', Directory ''docs'' (Some [File ''index.md''])])
         Window ''/ws/docs'' ''/ws'' ''Foo'' \<lparr>files = Map.empty, shown = []\<rparr>
       = Inl (Error ''Solution or project file not found in workspace.'')"
proof -
  let ?l = "Some [File ''README.md'', Directory ''docs'' (Some [File ''index.md''])]"
  have a: "\<not> containsSolutionOrProject ?l"
    by (simp add: containsSolutionOrProject_def endsWith_def)
  have b: "list_all (\<lambda>d. \<not> hasMarker d) (subdirectories posixPath ''/ws'' ?l)"
    by (simp add: hasMarker_def containsSolutionOrProject_def endsWith_def)
  from findNameSpaces_root_not_found[OF a b] show ?thesis by simp
qed

section \<open>The view model\<close>

text \<open>Which characters \<open>toLowerCase\<close> sends to a given lower-case letter.\<close>

lemma toLowerCaseChar_letter:
  assumes "97 \<le> (of_char d :: nat)" "(of_char d :: nat) \<le> 122"
  shows "toLowerCaseChar c = d \<longleftrightarrow> c = d \<or> (of_char c :: nat) + 32 = of_char d"
proof -
  let ?n = "of_char c :: nat" and ?m = "of_char d :: nat"
  have n: "?n < 256" by simp
  have eq: "c = d \<longleftrightarrow> ?n = ?m" by simp
  consider (upper) "65 \<le> ?n \<and> ?n \<le> 90"
    | (latin) "192 \<le> ?n \<and> ?n \<le> 222 \<and> ?n \<noteq> 215"
    | (other) "\<not> (65 \<le> ?n \<and> ?n \<le> 90) \<and> \<not> (192 \<le> ?n \<and> ?n \<le> 222 \<and> ?n \<noteq> 215)"
    by blast
  then show ?thesis
  proof cases
    case upper
    then have "toLowerCaseChar c = char_of (?n + 32)"
      by (simp add: toLowerCaseChar_def Let_def)
    then have "toLowerCaseChar c = d \<longleftrightarrow> (?n + 32) mod 256 = ?m"
      by (metis of_char_of of_char_eq_iff)
    moreover have "(?n + 32) mod 256 = ?n + 32" using upper by simp
    ultimately show ?thesis using upper assms eq by auto
  next
    case latin
    then have "toLowerCaseChar c = char_of (?n + 32)"
      by (simp add: toLowerCaseChar_def Let_def)
    then have "toLowerCaseChar c = d \<longleftrightarrow> (?n + 32) mod 256 = ?m"
      by (metis of_char_of of_char_eq_iff)
    moreover have "(?n + 32) mod 256 = ?n + 32" using latin by simp
    ultimately show ?thesis using latin assms eq by auto
  next
    case other
    then have "toLowerCaseChar c = c"
      by (auto simp: toLowerCaseChar_def Let_def)
    with other assms eq show ?thesis by auto
  qed
qed

lemma toLowerCaseChar_v: "toLowerCaseChar c = CHR ''v'' \<longleftrightarrow> c = CHR ''v'' \<or> c = CHR ''V''"
proof -
  have "(of_char c :: nat) + 32 = of_char (CHR ''v'') \<longleftrightarrow> (of_char c :: nat) = of_char (CHR ''V'')"
    by auto
  then show ?thesis
    using toLowerCaseChar_letter[of "CHR ''v''" c] by (simp only: of_char_eq_iff) simp
qed

lemma toLowerCaseChar_i: "toLowerCaseChar c = CHR ''i'' \<longleftrightarrow> c = CHR ''i'' \<or> c = CHR ''I''"
proof -
  have "(of_char c :: nat) + 32 = of_char (CHR ''i'') \<longleftrightarrow> (of_char c :: nat) = of_char (CHR ''I'')"
    by auto
  then show ?thesis
    using toLowerCaseChar_letter[of "CHR ''i''" c] by (simp only: of_char_eq_iff) simp
qed

lemma toLowerCaseChar_e: "toLowerCaseChar c = CHR ''e'' \<longleftrightarrow> c = CHR ''e'' \<or> c = CHR ''E''"
proof -
  have "(of_char c :: nat) + 32 = of_char (CHR ''e'') \<longleftrightarrow> (of_char c :: nat) = of_char (CHR ''E'')"
    by auto
  then show ?thesis
    using toLowerCaseChar_letter[of "CHR ''e''" c] by (simp only: of_char_eq_iff) simp
qed

lemma toLowerCaseChar_w: "toLowerCaseChar c = CHR ''w'' \<longleftrightarrow> c = CHR ''w'' \<or> c = CHR ''W''"
proof -
  have "(of_char c :: nat) + 32 = of_char (CHR ''w'') \<longleftrightarrow> (of_char c :: nat) = of_char (CHR ''W'')"
    by auto
  then show ?thesis
    using toLowerCaseChar_letter[of "CHR ''w''" c] by (simp only: of_char_eq_iff) simp
qed

lemma toLowerCase_view:
  "toLowerCase t = ''view'' \<longleftrightarrow>
     t \<in> set [[v, i, e, w]. v \<leftarrow> ''vV'', i \<leftarrow> ''iI'', e \<leftarrow> ''eE'', w \<leftarrow> ''wW'']"
proof -
  have "toLowerCase t = ''view'' \<longleftrightarrow>
          (\<exists>a b c d. t = [a, b, c, d] \<and> toLowerCaseChar a = CHR ''v'' \<and> toLowerCaseChar b = CHR ''i''
             \<and> toLowerCaseChar c = CHR ''e'' \<and> toLowerCaseChar d = CHR ''w'')"
    by (auto simp: toLowerCase_def map_eq_Cons_conv)
  then show ?thesis
    unfolding toLowerCaseChar_v toLowerCaseChar_i toLowerCaseChar_e toLowerCaseChar_w
    by auto
qed

lemma endsWith_toLowerCase_view:
  "endsWith (toLowerCase s) ''view'' \<longleftrightarrow> endsWithViewAnyCase s"
proof -
  have d: "drop (length s - 4) (toLowerCase s) = toLowerCase (drop (length s - 4) s)"
    by (simp add: toLowerCase_def drop_map)
  have "endsWith (toLowerCase s) ''view'' \<longleftrightarrow>
          4 \<le> length s \<and> drop (length s - 4) (toLowerCase s) = ''view''"
    by (simp add: endsWith_def toLowerCase_def eval_nat_numeral)
  also have "\<dots> \<longleftrightarrow> 4 \<le> length s \<and> toLowerCase (drop (length s - 4) s) = ''view''"
    by (simp only: d)
  also have "\<dots> \<longleftrightarrow> endsWithViewAnyCase s"
    by (simp only: toLowerCase_view endsWithViewAnyCase_def)
  finally show ?thesis .
qed

text \<open>
  Claim C9. The file name of the view model is the view name followed by \<open>Model\<close> when
  the view name ends with \<open>view\<close> in any mix of upper and lower case, and the view name
  followed by \<open>ViewModel\<close> otherwise.
\<close>

theorem createViewModel_fileName_suffix:
  "createViewModel_fileName viewName =
     (if endsWithViewAnyCase viewName then viewName @ ''Model'' else viewName @ ''ViewModel'')"
proof -
  have "endsWith (toLowerCase viewName) ''view'' \<longleftrightarrow> endsWithViewAnyCase viewName"
    by (rule endsWith_toLowerCase_view)
  then show ?thesis
    unfolding createViewModel_fileName_def by simp
qed

theorem createViewModel_fileName_suffix_witness:
  "createViewModel_fileName ''MainView'' = ''MainViewModel''
   \<and> createViewModel_fileName ''MAINVIEW'' = ''MAINVIEWModel''
   \<and> createViewModel_fileName ''Settings'' = ''SettingsViewModel''"
  using createViewModel_fileName_suffix[of "''MainView''"]
    createViewModel_fileName_suffix[of "''MAINVIEW''"]
    createViewModel_fileName_suffix[of "''Settings''"]
  by (simp add: endsWithViewAnyCase_def)


section \<open>The directory of the view model\<close>

lemma includes_js_occurs: "includes_js s pat \<longleftrightarrow> occurs pat s 0"
proof
  assume "includes_js s pat"
  then obtain i where "searchFrom pat s = Some i" by (auto simp: includes_js_def)
  from searchFrom_Some[OF this] have "i \<le> length s" "occursAt pat s i"
    by (simp_all add: occursAt_def)
  then show "occurs pat s 0"
    unfolding occurs_def list_ex_iff by (intro bexI[of _ i]) auto
next
  assume "occurs pat s 0"
  then obtain i where "occursAt pat s i"
    unfolding occurs_def list_ex_iff by blast
  then have i: "i \<le> length s" "prefix pat (drop i s)"
    by (simp_all add: occursAt_def)
  show "includes_js s pat"
  proof (rule ccontr)
    assume "\<not> includes_js s pat"
    then have "searchFrom pat s = None" by (simp add: includes_js_def)
    from searchFrom_None[OF this i(1)] i(2) show False by simp
  qed
qed

lemma firstOccurrence_occurs:
  assumes "firstOccurrence pat s k i"
  shows "occurs pat s k"
proof -
  from assms have "k \<le> i" "occursAt pat s i" by (simp_all add: firstOccurrence_def)
  then show ?thesis
    unfolding occurs_def list_ex_iff by (intro bexI[of _ i]) (auto simp: occursAt_def)
qed

text \<open>On code units below 256 the two models of lower-casing agree.\<close>

lemma toLowerCaseUnit_of_char:
  "toLowerCaseUnit (of_char c) = [of_char (toLowerCaseChar c)]"
proof -
  let ?n = "of_char c :: nat"
  have "?n < 256" by (rule nat_of_char_less_256)
  then have "?n \<noteq> 304" by linarith
  moreover have "(of_char (char_of (?n + 32)) :: nat) = ?n + 32" if "?n \<le> 222"
    using that by simp
  ultimately show ?thesis
    by (auto simp: toLowerCaseUnit_def toLowerCaseChar_def Let_def)
qed

lemma toLowerCase_units_units: "toLowerCase_units (units s) = units (toLowerCase s)"
  by (induction s) (simp_all add: toLowerCase_units_def units_def toLowerCase_def
      toLowerCaseUnit_of_char)

lemma prefix_units: "prefix (units pat) (units s) \<longleftrightarrow> prefix pat s"
proof
  assume "prefix (units pat) (units s)"
  then obtain r where r: "map of_char s = map of_char pat @ (r :: nat list)"
    by (auto simp: prefix_def units_def)
  then have "map (of_char :: char \<Rightarrow> nat) (take (length pat) s) = map of_char pat"
    by (metis append_eq_conv_conj length_map take_map)
  then have "take (length pat) s = pat"
    by (simp add: inj_map_eq_map[OF inj_of_char])
  then show "prefix pat s" by (metis take_is_prefix)
next
  assume "prefix pat s"
  then show "prefix (units pat) (units s)" by (simp add: units_def map_mono_prefix)
qed

lemma occursAt_units: "occursAt (units pat) (units s) i \<longleftrightarrow> occursAt pat s i"
proof -
  have "drop i (units s) = units (drop i s)" by (simp add: units_def drop_map)
  then show ?thesis by (simp add: occursAt_def prefix_units) (simp add: units_def)
qed

lemma firstOccurrence_units:
  "firstOccurrence (units pat) (units s) k i \<longleftrightarrow> firstOccurrence pat s k i"
  by (simp add: firstOccurrence_def occursAt_units)

lemma occurs_units: "occurs (units pat) (units s) k \<longleftrightarrow> occurs pat s k"
  by (simp add: occurs_def list_ex_iff occursAt_units) (simp add: units_def)

lemma length_units: "length (units s) = length s"
  by (simp add: units_def)

lemma units_backslashViews: "units backslashViews = 92 # units ''views''"
  by (simp add: units_def backslashViews_def)

text \<open>
  A path of code units below 256 is lowered unit by unit, so the offsets of the lowered
  path are offsets of the path, and the directories mirror the views folder.
\<close>

lemma createViewModel_paths_latin1:
  assumes "firstOccurrence backslashViews (toLowerCase s) 0 i"
  shows "createViewModel_paths pathJoin (units s) =
           (pathJoin (pathJoin (units (take i s)) (units ''ViewModels'')) (units (drop (i + 6) s)),
            pathJoin (units (take i s)) (units ''ViewModels''))"
proof -
  have f: "firstOccurrence (units backslashViews) (toLowerCase_units (units s)) 0 i"
    using assms by (simp add: toLowerCase_units_units firstOccurrence_units)
  from assms have "occursAt backslashViews (toLowerCase s) i"
    by (simp add: firstOccurrence_def)
  from occursAt_split(1)[OF this] have le: "i + 6 \<le> length (units s)"
    by (simp add: backslashViews_def toLowerCase_def length_units)
  have inc: "includes_js (toLowerCase_units (units s)) (units backslashViews)"
    using firstOccurrence_occurs[OF f] by (simp add: includes_js_occurs)
  have idx: "indexOf (toLowerCase_units (units s)) (units backslashViews) 0 = int i"
    using indexOf_first[OF f] by simp
  have l6: "length (units backslashViews) = 6"
    by (simp add: length_units backslashViews_def)
  have t: "substring (units s) 0 (int i) = units (take i s)"
    using le by (simp add: substring_take) (simp add: units_def take_map)
  have d: "substringFrom (units s) (int i + 6) = units (drop (i + 6) s)"
    using substringFrom_drop[OF le] by (simp add: units_def drop_map)
  show ?thesis
    by (simp add: createViewModel_paths_def inc idx l6 t d Let_def)
qed

lemma createViewModel_paths_latin1_other:
  assumes "\<not> occurs backslashViews (toLowerCase s) 0"
  shows "createViewModel_paths pathJoin (units s) = (units s, units s)"
  using assms
  by (simp add: createViewModel_paths_def includes_js_occurs toLowerCase_units_units
      occurs_units)

text \<open>Only the backslash is lowered to a string with a backslash in it.\<close>

lemma toLowerCaseUnit_backslash: "92 \<in> set (toLowerCaseUnit u) \<Longrightarrow> u = 92"
  by (auto simp: toLowerCaseUnit_def split: if_splits)

lemma createViewModel_paths_no_backslash:
  assumes "92 \<notin> set viewPath"
  shows "createViewModel_paths pathJoin viewPath = (viewPath, viewPath)"
proof -
  have "\<not> includes_js (toLowerCase_units viewPath) (units backslashViews)"
  proof
    assume "includes_js (toLowerCase_units viewPath) (units backslashViews)"
    then have "occurs (units backslashViews) (toLowerCase_units viewPath) 0"
      by (simp add: includes_js_occurs)
    then obtain i where "occursAt (units backslashViews) (toLowerCase_units viewPath) i"
      unfolding occurs_def list_ex_iff by blast
    then obtain r where "drop i (toLowerCase_units viewPath) = 92 # r"
      by (auto simp: occursAt_def units_backslashViews prefix_def)
    then have "92 \<in> set (toLowerCase_units viewPath)"
      by (metis in_set_dropD list.set_intros(1))
    then obtain u where "u \<in> set viewPath" "92 \<in> set (toLowerCaseUnit u)"
      by (auto simp: toLowerCase_units_def)
    with toLowerCaseUnit_backslash assms show False by blast
  qed
  then show ?thesis by (simp add: createViewModel_paths_def)
qed

text \<open>
  Claim C10. The view path \<open>D:\<close>, backslash, two capital I with dot above, backslash,
  \<open>Views\<close>, backslash, \<open>Pages\<close>. The views folder starts at offset 5 of the path. Each
  of the two letters before it becomes two code units in the lower-cased path, where the
  marker is therefore found at offset 7, and \<open>createViewModel\<close> cuts the path itself
  at 7 and at 13: the base path ends with the \<open>V\<close> of \<open>Views\<close> and the part after
  the views folder is \<open>ages\<close>. Mirroring the folder would give the base path of the
  first five code units and the part after the folder, the backslash and \<open>Pages\<close>.
\<close>

theorem createViewModel_paths_shifted_offset:
  "firstOccurrence (units backslashViews)
     (toLowerCase_units
        (units (''D:'' @ [backslash]) @ [304, 304]
           @ units ([backslash] @ ''Views'' @ [backslash] @ ''Pages''))) 0 7
   \<and> occursAt (units ([backslash] @ ''Views''))
       (units (''D:'' @ [backslash]) @ [304, 304]
          @ units ([backslash] @ ''Views'' @ [backslash] @ ''Pages'')) 5
   \<and> createViewModel_paths pathJoin
       (units (''D:'' @ [backslash]) @ [304, 304]
          @ units ([backslash] @ ''Views'' @ [backslash] @ ''Pages''))
     = (pathJoin
          (pathJoin (units (''D:'' @ [backslash]) @ [304, 304] @ units ([backslash] @ ''V''))
             (units ''ViewModels''))
          (units ''ages''),
        pathJoin (units (''D:'' @ [backslash]) @ [304, 304] @ units ([backslash] @ ''V''))
          (units ''ViewModels''))"
proof -
  let ?p = "units (''D:'' @ [backslash]) @ [304, 304]
              @ units ([backslash] @ ''Views'' @ [backslash] @ ''Pages'')"
  have f: "firstOccurrence (units backslashViews) (toLowerCase_units ?p) 0 7"
    by code_simp
  have o: "occursAt (units ([backslash] @ ''Views'')) ?p 5"
    by code_simp
  have inc: "includes_js (toLowerCase_units ?p) (units backslashViews)"
    using firstOccurrence_occurs[OF f] by (simp add: includes_js_occurs)
  have idx: "indexOf (toLowerCase_units ?p) (units backslashViews) 0 = 7"
    using indexOf_first[OF f] by simp
  have l6: "length (units backslashViews) = 6"
    by (simp add: length_units backslashViews_def)
  have t: "substring ?p 0 7
             = units (''D:'' @ [backslash]) @ [304, 304] @ units ([backslash] @ ''V'')"
    by code_simp
  have d: "substringFrom ?p (7 + 6) = units ''ages''"
    by code_simp
  have "createViewModel_paths pathJoin ?p
     = (pathJoin
          (pathJoin (units (''D:'' @ [backslash]) @ [304, 304] @ units ([backslash] @ ''V''))
             (units ''ViewModels''))
          (units ''ages''),
        pathJoin (units (''D:'' @ [backslash]) @ [304, 304] @ units ([backslash] @ ''V''))
          (units ''ViewModels''))"
    unfolding createViewModel_paths_def Let_def idx l6 using inc t d by simp
  with f o show ?thesis by blast
qed

section \<open>The namespace written into each file\<close>

lemma changeFileContent_written:
  assumes "files w (filePath args) = Some text"
  shows "changeFileContent args w =
           Inr (w\<lparr>files := (files w)(filePath args \<mapsto> modifiedData args text),
                  shown := (if openFile args then shown w @ [filePath args] else shown w)\<rparr>)"
  using assms
  by (simp add: changeFileContent_def readFileSync_def writeFileSync_def
      openTextDocument_def Let_def)

text \<open>The template types whose files get their namespaces rewritten.\<close>

lemma requiresNamespaceUpdate_types:
  "requiresNamespaceUpdate (getTemplateConfiguration t) \<longleftrightarrow>
     t = Window \<or> t = UserControl \<or> t = TemplatedControl"
  by (cases t) (simp_all add: getTemplateConfiguration_def)

text \<open>
  Claim C8. \<open>updateTemplateNamespaces\<close> rewrites the markup file between the markers of
  the template type: \<open>xmlns:controls="using:\<close> and \<open>">\<close> for a templated control,
  \<open>x:Class="\<close> and \<open>"\<close> for every other type. What it writes between them is
  \<open>csharpNameSpace\<close> (the namespace without the entity name) for a templated control and
  \<open>xamlNameSpace\<close> (the full namespace) for every other type. The rewriting of the
  code-behind file, which follows, leaves the markup file as it is.
\<close>

theorem updateTemplateNamespaces_markup:
  assumes "findNameSpaces pm l createPath projectPath fileName = Inr ns"
    and "files w (path_join pm createPath (fileName @ ''.axaml'')) = Some markup"
    and "files w (path_join pm createPath (fileName @ ''.axaml.cs'')) = Some code"
    and "path_join pm createPath (fileName @ ''.axaml'')
           \<noteq> path_join pm createPath (fileName @ ''.axaml.cs'')"
    and "firstOccurrence (markupStartMarker t) markup 0 i"
    and "firstOccurrence (markupEndMarker t) markup (i + length (markupStartMarker t)) j"
  shows "\<exists>w'. updateTemplateNamespaces pm l t createPath projectPath fileName w = Inr w'
           \<and> files w' (path_join pm createPath (fileName @ ''.axaml'')) =
               Some (take (i + length (markupStartMarker t)) markup
                     @ (if t = TemplatedControl then csharpNameSpace ns else xamlNameSpace ns)
                     @ drop j markup)"
proof -
  let ?markupFile = "path_join pm createPath (fileName @ ''.axaml'')"
  let ?codeBehind = "path_join pm createPath (fileName @ ''.axaml.cs'')"
  let ?fargs = "\<lparr>xamlNameSpace = xamlNameSpace ns, csharpNameSpace = csharpNameSpace ns,
      filePath = ?markupFile, startContent = markupStartMarker t, endContent = markupEndMarker t,
      templateType = t, openFile = True, isCSharpFile = False\<rparr>"
  let ?bargs = "\<lparr>xamlNameSpace = xamlNameSpace ns, csharpNameSpace = csharpNameSpace ns,
      filePath = ?codeBehind, startContent = ''namespace '', endContent = '';'',
      templateType = t, openFile = False, isCSharpFile = True\<rparr>"
  let ?new = "take (i + length (markupStartMarker t)) markup
                @ (if t = TemplatedControl then csharpNameSpace ns else xamlNameSpace ns)
                @ drop j markup"
  have m: "modifiedData ?fargs markup = ?new"
    using modifiedData_found[of ?fargs markup i j] assms(5,6)
    by (simp add: namespaceToUse_def)
  define w1 where "w1 = w\<lparr>files := (files w)(?markupFile \<mapsto> ?new), shown := shown w @ [?markupFile]\<rparr>"
  have c1: "changeFileContent ?fargs w = Inr w1"
    using changeFileContent_written[of w ?fargs markup] assms(2) m by (simp add: w1_def)
  have b1: "files w1 (filePath ?bargs) = Some code"
    using assms(3,4) by (simp add: w1_def)
  define w2 where "w2 = w1\<lparr>files := (files w1)(?codeBehind \<mapsto> modifiedData ?bargs code),
      shown := shown w1\<rparr>"
  have c2: "changeFileContent ?bargs w1 = Inr w2"
    using changeFileContent_written[OF b1] by (simp add: w2_def)
  have f2: "files w2 ?markupFile = Some ?new"
    using assms(4) by (simp add: w2_def w1_def)
  have "updateTemplateNamespaces pm l t createPath projectPath fileName w = Inr w2"
    using assms(1) c1 c2
    by (simp add: updateTemplateNamespaces_def changeNamespaces_def Let_def
        markupStartMarker_def markupEndMarker_def)
  with f2 show ?thesis by blast
qed

theorem updateTemplateNamespaces_markup_witness:
  "\<exists>w'. updateTemplateNamespaces posixPath
           (Some [File ''App.csproj'', Directory ''Controls'' (Some [])])
           TemplatedControl ''/proj/Controls'' ''/proj'' ''Btn''
           \<lparr>files = [''/proj/Controls/Btn.axaml'' \<mapsto>
                       ''<Styles xmlns:controls='' @ [dquote] @ ''using:Old'' @ [dquote] @ ''>'',
                     ''/proj/Controls/Btn.axaml.cs'' \<mapsto> ''namespace Old; class Btn {}''],
            shown = []\<rparr> = Inr w'
         \<and> files w' ''/proj/Controls/Btn.axaml'' =
             Some (''<Styles xmlns:controls='' @ [dquote] @ ''using:App.Controls'' @ [dquote]
                   @ ''>'')"
proof -
  let ?l = "Some [File ''App.csproj'', Directory ''Controls'' (Some [])]"
  let ?markup = "''<Styles xmlns:controls='' @ [dquote] @ ''using:Old'' @ [dquote] @ ''>''"
  let ?w = "\<lparr>files = [''/proj/Controls/Btn.axaml'' \<mapsto> ?markup,
                     ''/proj/Controls/Btn.axaml.cs'' \<mapsto> ''namespace Old; class Btn {}''],
            shown = []\<rparr>"
  have n: "findNameSpaces posixPath ?l ''/proj/Controls'' ''/proj'' ''Btn''
             = Inr \<lparr>xamlNameSpace = ''App.Controls.Btn'', csharpNameSpace = ''App.Controls''\<rparr>"
    by code_simp
  have f: "files ?w (path_join posixPath ''/proj/Controls'' (''Btn'' @ ''.axaml'')) = Some ?markup"
    by (simp add: posixPath_def)
  have b: "files ?w (path_join posixPath ''/proj/Controls'' (''Btn'' @ ''.axaml.cs''))
             = Some ''namespace Old; class Btn {}''"
    by (simp add: posixPath_def)
  have d: "path_join posixPath ''/proj/Controls'' (''Btn'' @ ''.axaml'')
             \<noteq> path_join posixPath ''/proj/Controls'' (''Btn'' @ ''.axaml.cs'')"
    by (simp add: posixPath_def)
  have s: "firstOccurrence (markupStartMarker TemplatedControl) ?markup 0 8"
    by code_simp
  have e: "firstOccurrence (markupEndMarker TemplatedControl) ?markup
             (8 + length (markupStartMarker TemplatedControl)) 33"
    by code_simp
  from updateTemplateNamespaces_markup[OF n f b d s e] show ?thesis
    by (simp add: posixPath_def markupStartMarker_def)
qed

section \<open>Inheritance from the base view model\<close>

text \<open>
  Claim C7. The view model \<open>my-viewModel.cs\<close> declares the class \<open>my_viewModel\<close>, so the
  token \<open>class my-viewModel\<close> after a space does not occur in it, and the base file
  exists. \<open>inheritFromViewModelBaseIfExists\<close> throws nothing: the start index is \<open>-1\<close>,
  the brace is searched from the head of the file, and the file is written as the new
  class line followed by the old content from its first brace on. The namespace line and
  the class declaration are lost.
\<close>

theorem inheritFromViewModelBaseIfExists_missing_class:
  "inheritFromViewModelBaseIfExists posixPath ''/p/my-viewModel.cs'' ''my-viewModel'' ''/p''
     \<lparr>files = [''/p/ViewModelBase.cs'' \<mapsto> ''namespace App; public class ViewModelBase { }'',
               ''/p/my-viewModel.cs'' \<mapsto> ''namespace App; public class my_viewModel { }''],
      shown = []\<rparr>
   = Inr \<lparr>files = [''/p/ViewModelBase.cs'' \<mapsto> ''namespace App; public class ViewModelBase { }'',
                 ''/p/my-viewModel.cs'' \<mapsto>
                    '' class my-viewModel : ViewModelBase'' @ CRLF @ ''{ }''],
          shown = []\<rparr>"
proof -
  let ?old = "''namespace App; public class my_viewModel { }''"
  have m1: "namespaceMatch ''namespace App; public class ViewModelBase { }'' = Some ''App''"
    by code_simp
  have m2: "namespaceMatch ?old = Some ''App''"
    by code_simp
  have a: "addInheritance ''my-viewModel'' ?old
             = '' class my-viewModel : ViewModelBase'' @ CRLF @ ''{ }''"
    by code_simp
  have u: "withUsingStatement (Some ''App'') (Some ''App'') ?old = ?old"
    by (simp add: withUsingStatement_def)
  show ?thesis
    by (simp add: inheritFromViewModelBaseIfExists_def posixPath_def existsSync_def
        findViewModelBaseNamespace_def findViewModelNamespace_def readFileSync_def
        writeFileSync_def m1 m2 u a Let_def del: namespaceMatch.simps)
qed

end
